theory Spec2Isabelle
  imports Main "HOL-Library.AList" "HOL-Library.Sublist"
begin

text \<open>
  A model of the repository's two programs and what is proved of them: the report
  engine (\<open>splitCsvLine\<close>, \<open>parseCsvText\<close>, \<open>walkCsvFiles\<close>, \<open>loadCombinedCsvs\<close>) and the task
  and column server (\<open>parseCsvHeader\<close>, the column inspection and the \<open>PUT\<close> of the task
  list, each in the copies of \<open>server.js\<close> and \<open>router.js\<close>). The definitions come first,
  in the order of the source; the statements C1 to C10 follow.
\<close>

section \<open>Strings of the host language\<close>

text \<open>
  A JavaScript string is a sequence of code units. The model uses \<^typ>\<open>string\<close>, one
  \<^typ>\<open>char\<close> per code unit, so it covers the code units below 256 (ASCII and Latin-1).
  \<open>String.prototype.trim\<close> and the string-to-number conversion strip the same set of
  white space and line terminators; below 256 these are TAB, LF, VT, FF, CR, SPACE and
  NBSP (0xA0).
\<close>

definition isWhiteSpace :: "char \<Rightarrow> bool" where
  "isWhiteSpace c = (of_char c \<in> {9, 10, 11, 12, 13, 32, 160 :: nat})"

definition trim :: "string \<Rightarrow> string" where
  "trim s = rev (dropWhile isWhiteSpace (rev (dropWhile isWhiteSpace s)))"

section \<open>CsvLineSplitter: \<open>splitCsvLine\<close>\<close>

text \<open>
  The loop of \<open>splitCsvLine\<close> over the index \<open>i\<close>, as a recursion over the rest of the line
  from \<open>i\<close> on. The state is the quote flag \<open>inQ\<close>, the current field \<open>cur\<close> and the fields
  pushed so far \<open>out\<close>. Reading \<open>line[i + 1]\<close> past the end gives \<open>undefined\<close>, which is not
  a double quote.
\<close>

fun splitLoop :: "bool \<Rightarrow> string \<Rightarrow> string list \<Rightarrow> string \<Rightarrow> string list" where
  "splitLoop inQ cur out [] = out @ [cur]"
| "splitLoop inQ cur out (ch # rest) =
     (if ch = CHR 0x22 then
        (case rest of
           [] \<Rightarrow> splitLoop (\<not> inQ) cur out rest
         | nxt # rest' \<Rightarrow>
             if inQ \<and> nxt = CHR 0x22 then splitLoop inQ (cur @ [CHR 0x22]) out rest'
             else splitLoop (\<not> inQ) cur out rest)
      else if ch = CHR '','' \<and> \<not> inQ then splitLoop inQ [] (out @ [cur]) rest
      else splitLoop inQ (cur @ [ch]) out rest)"

definition splitCsvLine :: "string \<Rightarrow> string list" where
  "splitCsvLine line = splitLoop False [] [] line"

section \<open>Numbers of the host language\<close>

text \<open>
  A JavaScript number is an IEEE 754 binary64 value. \<open>Finite neg m e\<close> stands for
  \<open>(-1)^neg * m * 2^e\<close> in the normal form of the format: \<open>m < 2^53\<close>,
  \<open>-1074 \<le> e \<le> 971\<close>, and \<open>2^52 \<le> m\<close> unless \<open>e = -1074\<close> (subnormal numbers and
  the two zeros, \<open>m = 0\<close>).
\<close>

datatype jsnum = NaN | Infinity bool | Finite bool nat int

definition isFinite :: "jsnum \<Rightarrow> bool" where
  "isFinite x = (case x of Finite _ _ _ \<Rightarrow> True | _ \<Rightarrow> False)"

definition zero :: "bool \<Rightarrow> jsnum" where
  "zero neg = Finite neg 0 (- 1074)"

fun bitLength :: "nat \<Rightarrow> nat" where
  "bitLength n = (if n = 0 then 0 else Suc (bitLength (n div 2)))"

fun decLength :: "nat \<Rightarrow> nat" where
  "decLength n = (if n < 10 then 1 else Suc (decLength (n div 10)))"

declare bitLength.simps [simp del] decLength.simps [simp del]

text \<open>The fraction \<open>a / (b * r^e)\<close> for an integer exponent \<open>e\<close>, as numerator and denominator.\<close>

definition scaleDown :: "nat \<Rightarrow> nat \<Rightarrow> nat \<Rightarrow> int \<Rightarrow> nat \<times> nat" where
  "scaleDown r a b e = (if 0 \<le> e then (a, b * r ^ nat e) else (a * r ^ nat (- e), b))"

definition roundHalfEven :: "nat \<times> nat \<Rightarrow> nat" where
  "roundHalfEven f = (case f of (n, d) \<Rightarrow>
     (let q = n div d; r = n mod d in
      if 2 * r < d then q else if d < 2 * r then q + 1 else if even q then q else q + 1))"

text \<open>
  The number value of the positive rational \<open>a / b\<close>: the nearest binary64 value, ties to
  the even significand, infinity from \<open>2^1024\<close> on.
\<close>

definition roundToDouble :: "bool \<Rightarrow> nat \<Rightarrow> nat \<Rightarrow> jsnum" where
  "roundToDouble neg a b =
     (if a = 0 then zero neg
      else
        let t = int (bitLength a) - int (bitLength b) - 53;
            e0 = (case scaleDown 2 a b t of (n, d) \<Rightarrow> if n < d * 2 ^ 53 then t else t + 1);
            e1 = max e0 (- 1074);
            m = roundHalfEven (scaleDown 2 a b e1);
            m' = (if m = 2 ^ 53 then 2 ^ 52 else m);
            e' = (if m = 2 ^ 53 then e1 + 1 else e1)
        in if 971 < e' then Infinity neg else Finite neg m' e')"

subsection \<open>String to number: \<open>Number(raw)\<close>\<close>

definition isDigit :: "char \<Rightarrow> bool" where
  "isDigit c = (48 \<le> (of_char c :: nat) \<and> (of_char c :: nat) \<le> 57)"

definition digitOf :: "char \<Rightarrow> nat" where
  "digitOf c =
     (let n = of_char c in
      if 48 \<le> n \<and> n \<le> 57 then n - 48
      else if 97 \<le> n \<and> n \<le> 102 then n - 87
      else if 65 \<le> n \<and> n \<le> 70 then n - 55
      else 16)"

definition natOfDigits :: "nat \<Rightarrow> string \<Rightarrow> nat" where
  "natOfDigits radix ds = foldl (\<lambda>acc c. radix * acc + digitOf c) 0 ds"

text \<open>\<open>0x\<close>, \<open>0o\<close> and \<open>0b\<close> literals (either case of the letter), without a sign.\<close>

definition parseNonDecimal :: "string \<Rightarrow> nat option" where
  "parseNonDecimal s =
     (case s of
        z # x # ds \<Rightarrow>
          (let radix = (if x = CHR ''x'' \<or> x = CHR ''X'' then 16
                        else if x = CHR ''o'' \<or> x = CHR ''O'' then 8
                        else if x = CHR ''b'' \<or> x = CHR ''B'' then 2 else 0)
           in if z = CHR ''0'' \<and> radix \<noteq> 0 \<and> ds \<noteq> [] \<and> list_all (\<lambda>c. digitOf c < radix) ds
              then Some (natOfDigits radix ds) else None)
      | _ \<Rightarrow> None)"

text \<open>The exponent part: \<open>e\<close> or \<open>E\<close>, an optional sign, and at least one digit, to the end.\<close>

definition parseExponent :: "string \<Rightarrow> int option" where
  "parseExponent s =
     (case s of
        [] \<Rightarrow> Some 0
      | c # r \<Rightarrow>
          if c = CHR ''e'' \<or> c = CHR ''E'' then
            (let neg = (case r of x # _ \<Rightarrow> x = CHR ''-'' | [] \<Rightarrow> False);
                 ds = (case r of x # r' \<Rightarrow> if x = CHR ''+'' \<or> x = CHR ''-'' then r' else r | [] \<Rightarrow> [])
             in if ds \<noteq> [] \<and> list_all isDigit ds
                then Some (if neg then - int (natOfDigits 10 ds) else int (natOfDigits 10 ds))
                else None)
          else None)"

text \<open>
  An unsigned decimal literal: \<open>Infinity\<close>, or digits with an optional fraction and an
  optional exponent, where the integer part or the fraction has a digit.
\<close>

definition parseUnsigned :: "bool \<Rightarrow> string \<Rightarrow> jsnum" where
  "parseUnsigned neg s =
     (if s = ''Infinity'' then Infinity neg
      else
        let ip = takeWhile isDigit s;
            r1 = dropWhile isDigit s;
            dot = (case r1 of c # _ \<Rightarrow> c = CHR ''.'' | [] \<Rightarrow> False);
            fp = (if dot then takeWhile isDigit (tl r1) else []);
            r2 = (if dot then dropWhile isDigit (tl r1) else r1)
        in if ip = [] \<and> fp = [] then NaN
           else (case parseExponent r2 of
                   None \<Rightarrow> NaN
                 | Some ex \<Rightarrow>
                     (case scaleDown 10 (natOfDigits 10 (ip @ fp)) 1 (int (length fp) - ex) of
                        (a, b) \<Rightarrow> roundToDouble neg a b)))"

definition Number :: "string \<Rightarrow> jsnum" where
  "Number raw =
     (let s = trim raw in
      if s = [] then zero False
      else (case parseNonDecimal s of
              Some n \<Rightarrow> roundToDouble False n 1
            | None \<Rightarrow>
                (case s of
                   c # r \<Rightarrow>
                     if c = CHR ''+'' then parseUnsigned False r
                     else if c = CHR ''-'' then parseUnsigned True r
                     else parseUnsigned False s
                 | [] \<Rightarrow> NaN)))"

subsection \<open>Number to string: \<open>String(num)\<close>\<close>

definition digitChar :: "nat \<Rightarrow> char" where
  "digitChar d = ''0123456789'' ! d"

fun decDigits :: "nat \<Rightarrow> string" where
  "decDigits n = (if n < 10 then [digitChar n] else decDigits (n div 10) @ [digitChar (n mod 10)])"

declare decDigits.simps [simp del]

text \<open>The decimal exponent \<open>L\<close> of the positive rational \<open>a / b\<close>: \<open>10^L \<le> a / b < 10^(L+1)\<close>.\<close>

definition decExponent :: "nat \<Rightarrow> nat \<Rightarrow> int" where
  "decExponent a b =
     (let t = int (decLength a) - int (decLength b)
      in (case scaleDown 10 a b t of (n, d) \<Rightarrow> if d \<le> n then t else t - 1))"

text \<open>
  The candidates with \<open>k\<close> digits for the double \<open>m * 2^e\<close>: the two decimals
  \<open>s * 10^(L + 1 - k)\<close> around it. One is kept when its number value is the double itself;
  of two, the closer one, and the even one on a tie. The result is \<open>(s, n)\<close> with the
  decimal point after the \<open>n\<close>-th digit of \<open>s\<close>.
\<close>

definition roundsTo :: "nat \<Rightarrow> int \<Rightarrow> int \<Rightarrow> nat \<Rightarrow> bool" where
  "roundsTo m e p s =
     ((case scaleDown 10 s 1 (- p) of (x, y) \<Rightarrow> roundToDouble False x y) = Finite False m e)"

definition normDigits :: "nat \<Rightarrow> int \<Rightarrow> nat \<Rightarrow> nat \<times> int" where
  "normDigits k L s = (if s = 10 ^ k then (10 ^ (k - 1), L + 2) else (s, L + 1))"

definition digitsFor :: "nat \<Rightarrow> int \<Rightarrow> nat \<Rightarrow> (nat \<times> int) option" where
  "digitsFor m e k =
     (case scaleDown 2 m 1 (- e) of (a, b) \<Rightarrow>
        let L = decExponent a b;
            p = L + 1 - int k;
            v = scaleDown 10 a b p;
            lo = fst v div snd v;
            hi = lo + 1
        in if roundsTo m e p lo \<and> roundsTo m e p hi then
             (if 2 * fst v < (2 * lo + 1) * snd v then Some (normDigits k L lo)
              else if (2 * lo + 1) * snd v < 2 * fst v then Some (normDigits k L hi)
              else if even lo then Some (normDigits k L lo) else Some (normDigits k L hi))
           else if roundsTo m e p lo then Some (normDigits k L lo)
           else if roundsTo m e p hi then Some (normDigits k L hi)
           else None)"

text \<open>
  The least number of digits with a candidate, tried from \<open>k\<close> on for \<open>n\<close> lengths.
  Seventeen significant digits identify every binary64 value, so the search from one
  digit on ends within seventeen lengths.
\<close>

fun shortestFrom :: "nat \<Rightarrow> nat \<Rightarrow> int \<Rightarrow> nat \<Rightarrow> nat \<times> int" where
  "shortestFrom 0 m e k = (0, 0)"
| "shortestFrom (Suc n) m e k =
     (case digitsFor m e k of Some r \<Rightarrow> r | None \<Rightarrow> shortestFrom n m e (Suc k))"

definition shortestDigits :: "nat \<Rightarrow> int \<Rightarrow> nat \<times> int" where
  "shortestDigits m e = shortestFrom 17 m e 1"

definition formatDecimal :: "nat \<times> int \<Rightarrow> string" where
  "formatDecimal sn = (case sn of (s, n) \<Rightarrow>
     (let ds = decDigits s; k = int (length ds) in
      if k \<le> n \<and> n \<le> 21 then ds @ replicate (nat (n - k)) (CHR ''0'')
      else if 0 < n \<and> n \<le> 21 then take (nat n) ds @ ''.'' @ drop (nat n) ds
      else if - 6 < n \<and> n \<le> 0 then ''0.'' @ replicate (nat (- n)) (CHR ''0'') @ ds
      else
        (let ex = n - 1;
             tail = [CHR ''e'', if ex < 0 then CHR ''-'' else CHR ''+''] @ decDigits (nat \<bar>ex\<bar>)
         in if k = 1 then ds @ tail else take 1 ds @ ''.'' @ drop 1 ds @ tail)))"

definition numToString :: "jsnum \<Rightarrow> string" where
  "numToString x =
     (case x of
        NaN \<Rightarrow> ''NaN''
      | Infinity neg \<Rightarrow> (if neg then ''-Infinity'' else ''Infinity'')
      | Finite neg m e \<Rightarrow>
          if m = 0 then ''0''
          else (if neg then ''-'' else []) @ formatDecimal (shortestDigits m e))"

section \<open>CsvTableParser: \<open>parseCsvText\<close>\<close>

text \<open>
  A cell is a number or a string. A row is a JavaScript object; the model keeps its own
  properties as an association list, and the statements below read rows through
  \<^const>\<open>map_of\<close>, so they do not depend on the order in which the keys are listed.
\<close>

datatype cell = CNum jsnum | CStr string

type_synonym row = "(string \<times> cell) list"

record table =
  columns :: "string list"
  rows :: "row list"

text \<open>
  The assignment \<open>row[k] = v\<close> on an object created by \<open>{}\<close>. It creates or overwrites the
  own property \<open>k\<close>, except for the key \<open>__proto__\<close>: that name is an accessor inherited
  from \<open>Object.prototype\<close>, the assignment calls its setter, and the setter ignores a value
  that is neither an object nor \<open>null\<close>. Every value assigned here is a string or a number,
  so no own property is created.
\<close>

definition setProp :: "string \<Rightarrow> cell \<Rightarrow> row \<Rightarrow> row" where
  "setProp k v r = (if k = ''__proto__'' then r else AList.update k v r)"

text \<open>\<open>parts[c] ?? ""\<close>: the field at index \<open>c\<close>, the empty string past the end.\<close>

definition fieldAt :: "string list \<Rightarrow> nat \<Rightarrow> string" where
  "fieldAt parts c = (if c < length parts then parts ! c else [])"

text \<open>The loop \<open>for (let c = 0; c < columns.length; c++) row[columns[c]] = parts[c] ?? ""\<close>.\<close>

definition fillRow :: "string list \<Rightarrow> string list \<Rightarrow> row" where
  "fillRow cols parts =
     foldl (\<lambda>r c. setProp (cols ! c) (CStr (fieldAt parts c)) r) [] [0..<length cols]"

text \<open>
  The test of the second loop on one value \<open>raw = row[k]\<close>. Every value the first loop
  stored is a string; a number would convert to itself and stay as it is.
\<close>

definition classifyCell :: "cell \<Rightarrow> cell" where
  "classifyCell v =
     (case v of
        CStr raw \<Rightarrow>
          (let num = Number raw in
           if raw \<noteq> [] \<and> isFinite num \<and> trim raw = numToString num then CNum num else CStr raw)
      | CNum n \<Rightarrow> CNum n)"

text \<open>The loop \<open>for (const k of Object.keys(row))\<close>.\<close>

definition classifyRow :: "row \<Rightarrow> row" where
  "classifyRow r =
     foldl (\<lambda>r' k. case map_of r' k of Some v \<Rightarrow> setProp k (classifyCell v) r' | None \<Rightarrow> r')
       r (map fst r)"

text \<open>
  The lines of the text: \<open>replace(/\r\n/g, "\n")\<close>, \<open>replace(/\r/g, "\n")\<close>, \<open>split("\n")\<close> and
  the filter that keeps the lines with a character left after trimming.
\<close>

fun replaceCRLF :: "string \<Rightarrow> string" where
  "replaceCRLF [] = []"
| "replaceCRLF [c] = [c]"
| "replaceCRLF (c # d # r) =
     (if c = CHR 0x0D \<and> d = CHR 0x0A then CHR 0x0A # replaceCRLF r else c # replaceCRLF (d # r))"

definition replaceCR :: "string \<Rightarrow> string" where
  "replaceCR s = map (\<lambda>c. if c = CHR 0x0D then CHR 0x0A else c) s"

fun splitOn :: "char \<Rightarrow> string \<Rightarrow> string list" where
  "splitOn sep [] = [[]]"
| "splitOn sep (c # r) =
     (if c = sep then [] # splitOn sep r
      else (case splitOn sep r of f # fs \<Rightarrow> (c # f) # fs | [] \<Rightarrow> [[c]]))"

definition csvLines :: "string \<Rightarrow> string list" where
  "csvLines csvText =
     filter (\<lambda>x. length (trim x) \<noteq> 0) (splitOn (CHR 0x0A) (replaceCR (replaceCRLF csvText)))"

definition parseCsvText :: "string \<Rightarrow> table" where
  "parseCsvText csvText =
     (case csvLines csvText of
        [] \<Rightarrow> \<lparr>columns = [], rows = []\<rparr>
      | header # body \<Rightarrow>
          (let cols = map trim (splitCsvLine header)
           in \<lparr>columns = cols,
               rows = map (\<lambda>line. classifyRow (fillRow cols (splitCsvLine line))) body\<rparr>))"

section \<open>The file system seen by the report engine\<close>

text \<open>
  A directory tree, as \<open>fs.stat\<close>, \<open>fs.readdir\<close> with \<open>withFileTypes\<close> and \<open>fs.readFile\<close> see it.
  A directory holds its entries in listing order. \<open>FileDenied\<close> and \<open>DirDenied\<close> are a file
  and a directory whose content cannot be read; \<open>Other\<close> is an entry that is neither a file
  nor a directory (a socket, a device). Symbolic links are not modelled. A path is the
  list of its segments; \<open>path.join(dir, name)\<close> appends a segment.
\<close>

datatype fsnode =
    File string
  | FileDenied
  | Dir "(string \<times> fsnode) list"
  | DirDenied
  | Other

type_synonym path = "string list"

datatype error =
    StatFailed
  | NotADirectory
  | NoSubdirsMatched
  | NoCsvFiles
  | ReaddirFailed
  | ReadFileFailed

primrec lookup :: "path \<Rightarrow> fsnode \<Rightarrow> fsnode option" where
  "lookup [] n = Some n"
| "lookup (x # xs) n =
     (case n of
        Dir es \<Rightarrow> (case map_of es x of Some c \<Rightarrow> lookup xs c | None \<Rightarrow> None)
      | _ \<Rightarrow> None)"

definition isDirectory :: "fsnode \<Rightarrow> bool" where
  "isDirectory n = (case n of Dir _ \<Rightarrow> True | DirDenied \<Rightarrow> True | _ \<Rightarrow> False)"

definition isFile :: "fsnode \<Rightarrow> bool" where
  "isFile n = (case n of File _ \<Rightarrow> True | FileDenied \<Rightarrow> True | _ \<Rightarrow> False)"

definition readdir :: "fsnode option \<Rightarrow> error + (string \<times> fsnode) list" where
  "readdir n = (case n of Some (Dir es) \<Rightarrow> Inr es | _ \<Rightarrow> Inl ReaddirFailed)"

definition readFile :: "fsnode \<Rightarrow> path \<Rightarrow> error + string" where
  "readFile fs p = (case lookup p fs of Some (File txt) \<Rightarrow> Inr txt | _ \<Rightarrow> Inl ReadFileFailed)"

definition assertDirectory :: "fsnode \<Rightarrow> path \<Rightarrow> error + unit" where
  "assertDirectory fs dirPath =
     (case lookup dirPath fs of
        None \<Rightarrow> Inl StatFailed
      | Some st \<Rightarrow> if \<not> isDirectory st then Inl NotADirectory else Inr ())"

definition listImmediateSubdirs :: "fsnode \<Rightarrow> path \<Rightarrow> error + string list" where
  "listImmediateSubdirs fs baseDir =
     (case readdir (lookup baseDir fs) of
        Inl e \<Rightarrow> Inl e
      | Inr entries \<Rightarrow> Inr (map fst (filter (\<lambda>e. isDirectory (snd e)) entries)))"

subsection \<open>CsvFileWalker: \<open>walkCsvFiles\<close>\<close>

definition toLowerChar :: "char \<Rightarrow> char" where
  "toLowerChar c =
     (let n = (of_char c :: nat) in
      if (65 \<le> n \<and> n \<le> 90) \<or> (192 \<le> n \<and> n \<le> 222 \<and> n \<noteq> 215) then char_of (n + 32) else c)"

definition toLowerCase :: "string \<Rightarrow> string" where
  "toLowerCase s = map toLowerChar s"

definition endsWith :: "string \<Rightarrow> string \<Rightarrow> bool" where
  "endsWith s t = suffix t s"

definition startsWith :: "string \<Rightarrow> string \<Rightarrow> bool" where
  "startsWith s t = prefix t s"

text \<open>
  The walk reads the listing of \<open>dirPath\<close> and visits the entries in order, pushing the
  paths of the CSV files on \<open>outFiles\<close>. The recursion follows the tree: the listing read
  at the path of a child directory is the listing of that child. The first failing
  \<open>readdir\<close> rejects the whole walk.
\<close>

fun walkCsvFiles :: "path \<Rightarrow> fsnode \<Rightarrow> path list \<Rightarrow> error + path list"
  and walkEntries :: "path \<Rightarrow> (string \<times> fsnode) list \<Rightarrow> path list \<Rightarrow> error + path list"
where
  "walkCsvFiles dirPath (Dir entries) outFiles = walkEntries dirPath entries outFiles"
| "walkCsvFiles dirPath (File txt) outFiles = Inl ReaddirFailed"
| "walkCsvFiles dirPath FileDenied outFiles = Inl ReaddirFailed"
| "walkCsvFiles dirPath DirDenied outFiles = Inl ReaddirFailed"
| "walkCsvFiles dirPath Other outFiles = Inl ReaddirFailed"
| "walkEntries dirPath [] outFiles = Inr outFiles"
| "walkEntries dirPath (e # es) outFiles =
     (let full = dirPath @ [fst e] in
      if isDirectory (snd e) then
        (case walkCsvFiles full (snd e) outFiles of
           Inl err \<Rightarrow> Inl err
         | Inr outFiles' \<Rightarrow> walkEntries dirPath es outFiles')
      else if isFile (snd e) \<and> endsWith (toLowerCase (fst e)) ''.csv''
        then walkEntries dirPath es (outFiles @ [full])
      else walkEntries dirPath es outFiles)"

section \<open>FolderMatcher and ReportAggregator: \<open>loadCombinedCsvs\<close>\<close>

record meta =
  baseDir :: path
  startKeyword :: string
  matchedFolders :: "string list"
  csvCount :: nat
  rowCount :: nat
  colCount :: nat

text \<open>
  The result of \<open>loadCombinedCsvs\<close>. Its field \<open>rows\<close> is named \<open>allRows\<close> here, after the
  variable it is built from, since \<open>rows\<close> is the field of the table; the parameter
  \<open>baseDir\<close> of the function is named \<open>base\<close> for the same reason.
\<close>

record report =
  headers :: "string list"
  allRows :: "row list"
  meta :: meta

text \<open>\<open>colSet.add(c)\<close> on a \<open>Set\<close>, kept as the list of its elements in insertion order.\<close>

definition setAdd :: "string list \<Rightarrow> string \<Rightarrow> string list" where
  "setAdd colSet c = (if c \<in> set colSet then colSet else colSet @ [c])"

text \<open>The body of the loop over \<open>csvFiles\<close>, from the text that \<open>readFile\<close> returned.\<close>

definition mergeParsed :: "string list \<times> row list \<Rightarrow> string \<Rightarrow> string list \<times> row list" where
  "mergeParsed acc text =
     (let parsed = parseCsvText text
      in (foldl setAdd (fst acc) (columns parsed), snd acc @ rows parsed))"

fun mergeFiles :: "fsnode \<Rightarrow> path list \<Rightarrow> string list \<times> row list \<Rightarrow> error + string list \<times> row list" where
  "mergeFiles fs [] acc = Inr acc"
| "mergeFiles fs (filePath # rest) acc =
     (case readFile fs filePath of
        Inl err \<Rightarrow> Inl err
      | Inr text \<Rightarrow> mergeFiles fs rest (mergeParsed acc text))"

text \<open>The loop over \<open>matchedFolders\<close> that fills \<open>csvFiles\<close>.\<close>

fun walkFolders :: "fsnode \<Rightarrow> path \<Rightarrow> string list \<Rightarrow> path list \<Rightarrow> error + path list" where
  "walkFolders fs base [] csvFiles = Inr csvFiles"
| "walkFolders fs base (dirName # rest) csvFiles =
     (let folder = base @ [dirName] in
      case lookup folder fs of
        None \<Rightarrow> Inl ReaddirFailed
      | Some node \<Rightarrow>
          (case walkCsvFiles folder node csvFiles of
             Inl err \<Rightarrow> Inl err
           | Inr csvFiles' \<Rightarrow> walkFolders fs base rest csvFiles'))"

text \<open>
  \<open>typeof startKeyword === "string" ? startKeyword.trim() : ""\<close>; \<open>None\<close> stands for a value
  that is not a string.
\<close>

definition keywordOf :: "string option \<Rightarrow> string" where
  "keywordOf kw = (case kw of Some s \<Rightarrow> trim s | None \<Rightarrow> [])"

definition matchFolders :: "string \<Rightarrow> string list \<Rightarrow> string list" where
  "matchFolders key subdirs = (if key \<noteq> [] then filter (\<lambda>d. startsWith d key) subdirs else subdirs)"

definition loadCombinedCsvs :: "fsnode \<Rightarrow> path \<Rightarrow> string option \<Rightarrow> error + report" where
  "loadCombinedCsvs fs base kw =
     (case assertDirectory fs base of
        Inl err \<Rightarrow> Inl err
      | Inr _ \<Rightarrow>
     (case listImmediateSubdirs fs base of
        Inl err \<Rightarrow> Inl err
      | Inr subdirs \<Rightarrow>
     (let key = keywordOf kw;
          matched = matchFolders key subdirs
      in if matched = [] then Inl NoSubdirsMatched
         else
     (case walkFolders fs base matched [] of
        Inl err \<Rightarrow> Inl err
      | Inr csvFiles \<Rightarrow>
          if csvFiles = [] then Inl NoCsvFiles
          else
     (case mergeFiles fs csvFiles ([], []) of
        Inl err \<Rightarrow> Inl err
      | Inr acc \<Rightarrow>
          Inr \<lparr>headers = fst acc, allRows = snd acc,
               meta = \<lparr>baseDir = base, startKeyword = key, matchedFolders = matched,
                        csvCount = length csvFiles, rowCount = length (snd acc),
                        colCount = length (fst acc)\<rparr>\<rparr>)))))"

section \<open>The task and column server: \<open>server.js\<close> and \<open>router.js\<close>\<close>

text \<open>
  The repository holds the server twice: \<open>server.js\<close> with the handlers \<open>handleApiTasks\<close>
  and \<open>handleApiColumns\<close>, and \<open>router.js\<close> with \<open>handleTasks\<close> and \<open>handleColumns\<close>. A
  response is the status and the JSON value given to \<open>sendJson\<close>.
\<close>

datatype json =
    JNull
  | JBool bool
  | JNumber jsnum
  | JString string
  | JArray "json list"
  | JObject "(string \<times> json) list"

type_synonym response = "nat \<times> json"

definition errorBody :: "string \<Rightarrow> json" where
  "errorBody msg = JObject [(''error'', JString msg)]"

subsection \<open>The header parser \<open>parseCsvHeader\<close>\<close>

text \<open>
  \<open>s.replace(/^"(.*)"$/, "$1")\<close>: a string that starts and ends with a double quote (two
  different characters) and has no line terminator between them loses the two quotes;
  any other string stays as it is.
\<close>

definition stripQuotes :: "string \<Rightarrow> string" where
  "stripQuotes s =
     (case s of
        [] \<Rightarrow> s
      | c # r \<Rightarrow>
          if c = CHR 0x22 \<and> r \<noteq> [] \<and> last r = CHR 0x22
             \<and> list_all (\<lambda>x. x \<noteq> CHR 0x0A \<and> x \<noteq> CHR 0x0D) (butlast r)
          then butlast r else s)"

text \<open>\<open>server.js\<close>: every field is trimmed and unquoted when it is pushed.\<close>

fun headerLoop :: "bool \<Rightarrow> string \<Rightarrow> string list \<Rightarrow> string \<Rightarrow> string list" where
  "headerLoop inQuotes current result [] =
     (if length current \<noteq> 0 then result @ [stripQuotes (trim current)] else result)"
| "headerLoop inQuotes current result (ch # rest) =
     (if ch = CHR 0x22 then headerLoop (\<not> inQuotes) current result rest
      else if ch = CHR '','' \<and> \<not> inQuotes
        then headerLoop inQuotes [] (result @ [stripQuotes (trim current)]) rest
      else headerLoop inQuotes (current @ [ch]) result rest)"

definition parseCsvHeader :: "string \<Rightarrow> string list" where
  "parseCsvHeader line = headerLoop False [] [] line"

text \<open>\<open>router.js\<close>: every field is trimmed when it is pushed, and unquoted at the end.\<close>

fun headerLoop_router :: "bool \<Rightarrow> string \<Rightarrow> string list \<Rightarrow> string \<Rightarrow> string list" where
  "headerLoop_router q cur out [] = (if cur \<noteq> [] then out @ [trim cur] else out)"
| "headerLoop_router q cur out (ch # rest) =
     (if ch = CHR 0x22 then headerLoop_router (\<not> q) cur out rest
      else if ch = CHR '','' \<and> \<not> q then headerLoop_router q [] (out @ [trim cur]) rest
      else headerLoop_router q (cur @ [ch]) out rest)"

definition parseCsvHeader_router :: "string \<Rightarrow> string list" where
  "parseCsvHeader_router line = map stripQuotes (headerLoop_router False [] [] line)"

subsection \<open>Paths: \<open>path.normalize\<close> and \<open>path.join\<close> (POSIX)\<close>

text \<open>
  The segments of a path are resolved from left to right: empty segments and \<open>.\<close> are
  dropped, \<open>..\<close> removes the segment before it; at the start of an absolute path it is
  dropped, at the start of a relative path it is kept.
\<close>

fun normalizeSegments :: "bool \<Rightarrow> string list \<Rightarrow> string list \<Rightarrow> string list" where
  "normalizeSegments allowAboveRoot res [] = res"
| "normalizeSegments allowAboveRoot res (seg # segs) =
     (if seg = [] \<or> seg = ''.'' then normalizeSegments allowAboveRoot res segs
      else if seg = ''..'' then
        (if res \<noteq> [] \<and> last res \<noteq> ''..'' then normalizeSegments allowAboveRoot (butlast res) segs
         else if allowAboveRoot then normalizeSegments allowAboveRoot (res @ [seg]) segs
         else normalizeSegments allowAboveRoot res segs)
      else normalizeSegments allowAboveRoot (res @ [seg]) segs)"

fun joinWith :: "string \<Rightarrow> string list \<Rightarrow> string" where
  "joinWith sep [] = []"
| "joinWith sep [s] = s"
| "joinWith sep (s # t # ss) = s @ sep @ joinWith sep (t # ss)"

definition normalize :: "string \<Rightarrow> string" where
  "normalize p =
     (if p = [] then ''.''
      else
        let isAbsolute = (hd p = CHR ''/'');
            trailingSeparator = (last p = CHR ''/'');
            body = joinWith ''/'' (normalizeSegments (\<not> isAbsolute) [] (splitOn (CHR ''/'') p))
        in if body = [] then (if isAbsolute then ''/'' else if trailingSeparator then ''./'' else ''.'')
           else (if isAbsolute then ''/'' else []) @ body @ (if trailingSeparator then ''/'' else []))"

definition pathJoin :: "string \<Rightarrow> string \<Rightarrow> string" where
  "pathJoin a b =
     (if a = [] \<and> b = [] then ''.''
      else normalize (if a = [] then b else if b = [] then a else a @ ''/'' @ b))"

text \<open>\<open>DATA_DIR = path.join(__dirname, "data")\<close>, for the directory \<open>root\<close> of the module.\<close>

definition DATA_DIR :: "string \<Rightarrow> string" where
  "DATA_DIR root = pathJoin root ''data''"

subsection \<open>The column inspection: \<open>handleColumns\<close> and \<open>handleApiColumns\<close>\<close>

text \<open>
  What \<open>fs.readFile(file, "utf8", callback)\<close> gives the callback. The file system is a
  function from the path to this result. Next to its response a handler returns the paths
  it read, in order.
\<close>

datatype readResult = Content string | ENOENT | ReadError

text \<open>\<open>txt.split(/\r?\n/)\<close>: a line feed ends a line, together with one carriage return before it.\<close>

definition dropLastCR :: "string \<Rightarrow> string" where
  "dropLastCR l = (if l \<noteq> [] \<and> last l = CHR 0x0D then butlast l else l)"

definition splitLines :: "string \<Rightarrow> string list" where
  "splitLines txt =
     (let ps = splitOn (CHR 0x0A) txt in map dropLastCR (butlast ps) @ [last ps])"

definition handleColumns ::
  "string \<Rightarrow> (string \<Rightarrow> readResult) \<Rightarrow> string \<Rightarrow> string option \<Rightarrow> response \<times> string list" where
  "handleColumns root fs method flow =
     (if method \<noteq> ''GET'' then ((405, errorBody ''method not allowed''), [])
      else case flow of
        None \<Rightarrow> ((400, errorBody ''missing flow''), [])
      | Some fl \<Rightarrow>
          if fl = [] then ((400, errorBody ''missing flow''), [])
          else
            let file = pathJoin (DATA_DIR root) (fl @ ''.csv'')
            in (case fs file of
                  ENOENT \<Rightarrow> ((404, errorBody ''not found''), [file])
                | ReadError \<Rightarrow> ((500, errorBody ''read fail''), [file])
                | Content txt \<Rightarrow>
                    (case List.find (\<lambda>l. trim l \<noteq> []) (splitLines txt) of
                       Some first \<Rightarrow> ((200, JArray (map JString (parseCsvHeader_router first))), [file])
                     | None \<Rightarrow> ((200, JArray []), [file]))))"

definition handleApiColumns ::
  "string \<Rightarrow> (string \<Rightarrow> readResult) \<Rightarrow> string \<Rightarrow> string option \<Rightarrow> response \<times> string list" where
  "handleApiColumns root fs method flow =
     (if method \<noteq> ''GET'' then ((405, errorBody ''Method not allowed''), [])
      else case flow of
        None \<Rightarrow> ((400, errorBody ''Missing flow query parameter''), [])
      | Some fl \<Rightarrow>
          if fl = [] then ((400, errorBody ''Missing flow query parameter''), [])
          else
            let csvPath = pathJoin (DATA_DIR root) (fl @ ''.csv'');
                safePath = normalize csvPath
            in if \<not> startsWith safePath (DATA_DIR root) then ((400, errorBody ''Invalid flow name''), [])
               else (case fs safePath of
                  ENOENT \<Rightarrow> ((404, errorBody (''CSV file not found for flow '' @ fl)), [safePath])
                | ReadError \<Rightarrow> ((500, errorBody ''Failed to read CSV file''), [safePath])
                | Content content \<Rightarrow>
                    (case filter (\<lambda>l. 0 < length l) (map trim (splitLines content)) of
                       [] \<Rightarrow> ((200, JArray []), [safePath])
                     | l # _ \<Rightarrow> ((200, JArray (map JString (parseCsvHeader l))), [safePath]))))"

text \<open>A path lies in a directory when it continues the directory's path after a separator.\<close>

definition insideDir :: "string \<Rightarrow> string \<Rightarrow> bool" where
  "insideDir dir p = startsWith p (dir @ ''/'')"

subsection \<open>The task store: the \<open>PUT\<close> branch of \<open>handleTasks\<close> and \<open>handleApiTasks\<close>\<close>

text \<open>
  \<open>JSON.parse\<close>, \<open>JSON.stringify(data, null, 2)\<close> and \<open>fs.writeFile\<close> belong to the host and are
  parameters of the handlers: \<open>JSON_parse\<close> gives \<open>None\<close> where \<open>JSON.parse\<close> throws, and
  \<open>writeFile\<close> takes the content of the task file before the call (\<open>None\<close>: no file) and
  the text to write, and gives whether the call succeeded and the content after it.
  \<open>endAfterDestroy\<close> says whether the \<open>end\<close> event of a request still reaches its handler
  after the connection was destroyed.
\<close>

record host =
  JSON_parse :: "string \<Rightarrow> json option"
  JSON_stringify :: "json \<Rightarrow> string"
  writeFile :: "string option \<Rightarrow> string \<Rightarrow> bool \<times> string option"
  endAfterDestroy :: bool

text \<open>
  The outcome of a request: the response (\<open>None\<close> when the connection was destroyed
  without one), the content of the task file afterwards, and the texts given to
  \<open>writeFile\<close>.
\<close>

record outcome =
  reply :: "response option"
  stored :: "string option"
  written :: "string list"

definition isArray :: "json \<Rightarrow> bool" where
  "isArray v = (case v of JArray _ \<Rightarrow> True | _ \<Rightarrow> False)"

text \<open>\<open>body || "[]"\<close>: the empty string is falsy.\<close>

definition bodyOrEmptyArray :: "string \<Rightarrow> string" where
  "bodyOrEmptyArray body = (if body = [] then ''[]'' else body)"

definition storeTasks :: "host \<Rightarrow> string option \<Rightarrow> json \<Rightarrow> string \<Rightarrow> outcome" where
  "storeTasks h store data failMsg =
     (let text = JSON_stringify h data in
      case writeFile h store text of
        (ok, store') \<Rightarrow>
          \<lparr>reply = Some (if ok then (200, JObject [(''ok'', JBool True)]) else (500, errorBody failMsg)),
           stored = store', written = [text]\<rparr>)"

text \<open>\<open>router.js\<close>, \<open>handleTasks\<close> for \<open>PUT\<close>, on the whole body that \<open>readBody\<close> collected.\<close>

definition handleTasks_PUT :: "host \<Rightarrow> string option \<Rightarrow> string \<Rightarrow> outcome" where
  "handleTasks_PUT h store body =
     (case JSON_parse h (bodyOrEmptyArray body) of
        None \<Rightarrow> \<lparr>reply = Some (400, errorBody ''invalid json''), stored = store, written = []\<rparr>
      | Some data \<Rightarrow>
          if \<not> isArray data
          then \<lparr>reply = Some (400, errorBody ''must be array''), stored = store, written = []\<rparr>
          else storeTasks h store data ''write fail'')"

text \<open>
  \<open>server.js\<close>, \<open>handleApiTasks\<close> for \<open>PUT\<close>. The \<open>data\<close> handler destroys the connection
  once the body is longer than 5 MiB, so no response reaches the client then; the \<open>end\<close>
  handler does the rest where it runs.
\<close>

definition handleApiTasks_end :: "host \<Rightarrow> string option \<Rightarrow> string \<Rightarrow> outcome" where
  "handleApiTasks_end h store body =
     (case JSON_parse h (bodyOrEmptyArray body) of
        None \<Rightarrow>
          \<lparr>reply = Some (400, errorBody ''Invalid JSON in request body''), stored = store, written = []\<rparr>
      | Some data \<Rightarrow>
          if \<not> isArray data
          then \<lparr>reply = Some (400, errorBody ''Body must be an array''), stored = store, written = []\<rparr>
          else storeTasks h store data ''Failed to write projectTasks.json'')"

definition handleApiTasks_PUT :: "host \<Rightarrow> string option \<Rightarrow> string \<Rightarrow> outcome" where
  "handleApiTasks_PUT h store body =
     (if 5 * 1024 * 1024 < length body then
        (if endAfterDestroy h then (handleApiTasks_end h store body)\<lparr>reply := None\<rparr>
         else \<lparr>reply = None, stored = store, written = []\<rparr>)
      else handleApiTasks_end h store body)"

section \<open>Vocabulary of the statements\<close>

text \<open>
  The definitions of this section are not code of the repository. They name what the
  theorems below say about it.
\<close>




text \<open>The row after the first \<open>n\<close> rounds of the loop of \<^const>\<open>fillRow\<close>.\<close>

definition fillUpto :: "string list \<Rightarrow> string list \<Rightarrow> nat \<Rightarrow> row" where
  "fillUpto cols parts n =
     foldl (\<lambda>r c. setProp (cols ! c) (CStr (fieldAt parts c)) r) [] [0..<n]"

text \<open>
  What the header parser makes of the fields of \<^const>\<open>splitCsvLine\<close>: every double quote
  is removed, a last field that is empty then is dropped, and the fields are trimmed.
\<close>

definition noQuotes :: "string \<Rightarrow> string" where
  "noQuotes s = filter (\<lambda>c. c \<noteq> CHR 0x22) s"

definition headerOf :: "string list \<Rightarrow> string list" where
  "headerOf fs =
     map trim (if noQuotes (last fs) = [] then butlast (map noQuotes fs) else map noQuotes fs)"

definition headerFinish :: "string list \<Rightarrow> string list" where
  "headerFinish fs =
     map (\<lambda>f. trim (noQuotes f)) (butlast fs)
     @ (if noQuotes (last fs) = [] then [] else [trim (noQuotes (last fs))])"

text \<open>
  The lines of a text, where a line ends at a carriage return with a line feed after it,
  at a carriage return alone, or at a line feed.
\<close>

fun textLines :: "string \<Rightarrow> string list" where
  "textLines [] = [[]]"
| "textLines (c # r) =
     (if c = CHR 0x0D then
        (case r of
           [] \<Rightarrow> [] # textLines r
         | d # r' \<Rightarrow> if d = CHR 0x0A then [] # textLines r' else [] # textLines r)
      else if c = CHR 0x0A then [] # textLines r
      else (case textLines r of l # ls \<Rightarrow> (c # l) # ls | [] \<Rightarrow> [[c]]))"


text \<open>
  The entries of a directory listing that are directories and whose name starts with the
  trimmed keyword; all the directories when the trimmed keyword is empty.
\<close>

definition selectedFolders :: "(string \<times> fsnode) list \<Rightarrow> string \<Rightarrow> string list" where
  "selectedFolders entries kw =
     map fst (filter (\<lambda>e. isDirectory (snd e) \<and> (trim kw = [] \<or> prefix (trim kw) (fst e))) entries)"

text \<open>
  A tree for the examples: under \<open>base\<close> the folders \<open>project1\<close>, \<open>other\<close> and \<open>project2\<close>
  and the file \<open>projfile\<close>; \<open>project1\<close> holds a CSV file with the columns \<open>x,y\<close>, and
  \<open>project2\<close> holds one with the columns \<open>y,z\<close> in a folder below it.
\<close>

definition exampleBase :: "(string \<times> fsnode) list" where
  "exampleBase =
     [(''project1'', Dir [(''a.csv'', File ''x,y\<newline>a,b''), (''notes.txt'', File ''n'')]),
      (''other'', Dir [(''o.csv'', File ''q\<newline>w'')]),
      (''project2'', Dir [(''sub'', Dir [(''b.csv'', File ''y,z\<newline>c,d'')])]),
      (''projfile'', File ''p'')]"

definition exampleTree :: fsnode where
  "exampleTree = Dir [(''base'', Dir exampleBase)]"

text \<open>
  Files for the examples of the column inspection, with the module in \<open>/srv/app\<close>: one
  CSV file beside the data directory and one in a sibling directory whose name starts
  like the data directory's.
\<close>

definition exampleFiles :: "string \<Rightarrow> readResult" where
  "exampleFiles p =
     (if p = ''/srv/app/secret.csv'' then Content ''k,v\<newline>1,2''
      else if p = ''/srv/app/data2/x.csv'' then Content ''p,q''
      else ENOENT)"

text \<open>
  A host for the examples of the task store. Its \<open>JSON_parse\<close> reads the texts \<open>[]\<close> and
  \<open>{}\<close> as \<open>JSON.parse\<close> does and rejects every other text (the empty text among them, as
  \<open>JSON.parse\<close> does); its \<open>JSON_stringify\<close> writes these two values as \<open>JSON.stringify\<close>
  does; its \<open>writeFile\<close> succeeds.
\<close>

definition exampleHost :: host where
  "exampleHost =
     \<lparr>JSON_parse = (\<lambda>s. if s = ''[]'' then Some (JArray [])
                        else if s = ''{}'' then Some (JObject []) else None),
      JSON_stringify = (\<lambda>v. if v = JArray [] then ''[]'' else ''{}''),
      writeFile = (\<lambda>store t. (True, Some t)),
      endAfterDestroy = False\<rparr>"

named_theorems js_eval \<open>rules that evaluate the model on literals\<close>

section \<open>Evaluation on literals\<close>

lemma Let_eval [js_eval]:
  "Let (Suc 0) f0 = f0 (Suc 0)"
  "Let [] f1 = f1 []"
  "Let (x # xs) f2 = f2 (x # xs)"
  "Let (a, b) f3 = f3 (a, b)"
  "Let True f4 = f4 True"
  "Let False f4 = f4 False"
  "Let (Finite s m e) f5 = f5 (Finite s m e)"
  "Let (- 1 :: int) f6 = f6 (- 1)"
  "Suc (Suc 0) = 2"
  by simp_all

lemma bitLength_eval [js_eval]:
  "bitLength 0 = 0" "bitLength 1 = 1" "bitLength (Suc 0) = 1"
  "bitLength (numeral k) = Suc (bitLength (numeral k div 2))"
  by (simp_all add: bitLength.simps)

lemma decLength_eval [js_eval]:
  "decLength 0 = 1" "decLength 1 = 1" "decLength (Suc 0) = 1"
  "decLength (numeral k) = (if numeral k < (10::nat) then 1 else Suc (decLength (numeral k div 10)))"
  by (simp_all add: decLength.simps)

lemma decDigits_eval [js_eval]:
  "decDigits 0 = ''0''" "decDigits 1 = ''1''" "decDigits (Suc 0) = ''1''"
  "decDigits (numeral k) = (if numeral k < (10::nat) then [digitChar (numeral k)]
     else decDigits (numeral k div 10) @ [digitChar (numeral k mod 10)])"
  by (simp_all add: decDigits.simps digitChar_def)

lemma replicate_eval [js_eval]:
  "replicate (numeral n) x = x # replicate (pred_numeral n) x"
  by (simp add: numeral_eq_Suc)

lemma shortestFrom_numeral [js_eval]:
  "shortestFrom (numeral n) m e k =
     (case digitsFor m e k of Some r \<Rightarrow> r | None \<Rightarrow> shortestFrom (pred_numeral n) m e (Suc k))"
  by (simp add: numeral_eq_Suc)

lemmas [js_eval] = trim_def isWhiteSpace_def Number_def parseNonDecimal_def parseUnsigned_def
  parseExponent_def isDigit_def digitOf_def natOfDigits_def scaleDown_def roundToDouble_def
  roundHalfEven_def zero_def isFinite_def digitChar_def roundsTo_def normDigits_def
  decExponent_def digitsFor_def shortestDigits_def formatDecimal_def numToString_def

lemmas js_cong = option.case_cong_weak list.case_cong_weak prod.case_cong_weak
  jsnum.case_cong_weak cell.case_cong_weak let_weak_cong

section \<open>CsvLineSplitter\<close>

lemma splitLoop_Cons:
  "splitLoop inQ cur out (ch # rest) =
     (if ch = CHR 0x22 then
        (if inQ \<and> (case rest of [] \<Rightarrow> False | nxt # _ \<Rightarrow> nxt = CHR 0x22)
         then splitLoop inQ (cur @ [CHR 0x22]) out (tl rest)
         else splitLoop (\<not> inQ) cur out rest)
      else if ch = CHR '','' \<and> \<not> inQ then splitLoop inQ [] (out @ [cur]) rest
      else splitLoop inQ (cur @ [ch]) out rest)"
  by (cases rest) simp_all

lemma splitLoop_nonempty: "splitLoop inQ cur out rest \<noteq> []"
proof (induction inQ cur out rest rule: splitLoop.induct)
  case (1 inQ cur out)
  then show ?case by simp
next
  case (2 inQ cur out ch rest)
  then show ?case
    by (cases rest) (auto simp add: splitLoop_Cons simp del: splitLoop.simps)
qed









section \<open>CsvTableParser\<close>

subsection \<open>Rows\<close>

lemma map_of_setProp:
  "map_of (setProp k v r) = (if k = ''__proto__'' then map_of r else (map_of r)(k \<mapsto> v))"
  by (simp add: setProp_def update_conv')

lemma keys_setProp:
  "fst ` set (setProp k v r) = (if k = ''__proto__'' then fst ` set r else insert k (fst ` set r))"
  by (simp add: setProp_def dom_update)

lemma fillUpto_Suc:
  "fillUpto cols parts (Suc n) = setProp (cols ! n) (CStr (fieldAt parts n)) (fillUpto cols parts n)"
  by (simp add: fillUpto_def)

lemma fillRow_fillUpto: "fillRow cols parts = fillUpto cols parts (length cols)"
  by (simp add: fillRow_def fillUpto_def)

lemma keys_fillUpto:
  "n \<le> length cols \<Longrightarrow> fst ` set (fillUpto cols parts n) = set (take n cols) - {''__proto__''}"
proof (induction n)
  case 0
  then show ?case by (simp add: fillUpto_def)
next
  case (Suc n)
  then have "n < length cols" by simp
  then show ?case using Suc
    by (auto simp: fillUpto_Suc keys_setProp take_Suc_conv_app_nth)
qed

lemma keys_fillRow: "fst ` set (fillRow cols parts) = set cols - {''__proto__''}"
  by (simp add: fillRow_fillUpto keys_fillUpto)

text \<open>After \<open>n\<close> rounds a column name holds the field of its last position below \<open>n\<close>.\<close>

lemma map_of_fillUpto:
  "n \<le> length cols \<Longrightarrow> c < n \<Longrightarrow> cols ! c \<noteq> ''__proto__'' \<Longrightarrow>
   (\<And>d. c < d \<Longrightarrow> d < n \<Longrightarrow> cols ! d \<noteq> cols ! c) \<Longrightarrow>
   map_of (fillUpto cols parts n) (cols ! c) = Some (CStr (fieldAt parts c))"
proof (induction n)
  case 0
  then show ?case by simp
next
  case (Suc n)
  show ?case
  proof (cases "c = n")
    case True
    then show ?thesis using Suc.prems by (simp add: fillUpto_Suc map_of_setProp)
  next
    case False
    then have c: "c < n" using Suc.prems by simp
    then have ne: "cols ! n \<noteq> cols ! c" using Suc.prems(4) [of n] by simp
    have "map_of (fillUpto cols parts n) (cols ! c) = Some (CStr (fieldAt parts c))"
      using Suc.IH c Suc.prems by simp
    then show ?thesis using ne by (simp add: fillUpto_Suc map_of_setProp)
  qed
qed

lemma map_of_fillRow:
  "c < length cols \<Longrightarrow> cols ! c \<noteq> ''__proto__'' \<Longrightarrow>
   (\<And>d. c < d \<Longrightarrow> d < length cols \<Longrightarrow> cols ! d \<noteq> cols ! c) \<Longrightarrow>
   map_of (fillRow cols parts) (cols ! c) = Some (CStr (fieldAt parts c))"
  by (simp add: fillRow_fillUpto map_of_fillUpto)

lemma classifyCell_idem: "classifyCell (classifyCell v) = classifyCell v"
  by (cases v) (simp_all add: classifyCell_def Let_def)

lemma classifyCell_empty: "classifyCell (CStr []) = CStr []"
  by (simp add: classifyCell_def)

lemma classify_keys:
  "''__proto__'' \<notin> fst ` set r \<Longrightarrow>
   map_of (foldl (\<lambda>r' k. case map_of r' k of Some v \<Rightarrow> setProp k (classifyCell v) r' | None \<Rightarrow> r') r ks) k
     = (if k \<in> set ks then map_option classifyCell (map_of r k) else map_of r k)"
proof (induction ks arbitrary: r)
  case Nil
  then show ?case by simp
next
  case (Cons a ks)
  let ?r' = "case map_of r a of Some v \<Rightarrow> setProp a (classifyCell v) r | None \<Rightarrow> r"
  have a: "map_of r a \<noteq> None \<Longrightarrow> a \<noteq> ''__proto__''"
    using Cons.prems by (metis domIff dom_map_of_conv_image_fst)
  have keys: "''__proto__'' \<notin> fst ` set ?r'"
    using Cons.prems by (auto simp: keys_setProp split: option.splits if_splits)
  have m: "map_of ?r' = (\<lambda>x. if x = a then map_option classifyCell (map_of r a) else map_of r x)"
    using a by (auto simp: map_of_setProp fun_eq_iff split: option.splits)
  show ?case using Cons.IH [OF keys, unfolded m]
    by (cases "map_of r a") (auto simp: classifyCell_idem option.map_comp comp_def)
qed

lemma map_of_classifyRow:
  "''__proto__'' \<notin> fst ` set r \<Longrightarrow> map_of (classifyRow r) k = map_option classifyCell (map_of r k)"
proof -
  assume p: "''__proto__'' \<notin> fst ` set r"
  show ?thesis
  proof (cases "k \<in> fst ` set r")
    case True
    then show ?thesis unfolding classifyRow_def using classify_keys [OF p] by simp
  next
    case False
    then have "map_of r k = None" by (simp add: map_of_eq_None_iff)
    then show ?thesis unfolding classifyRow_def using classify_keys [OF p] False by simp
  qed
qed

lemma keys_classifyRow:
  "''__proto__'' \<notin> fst ` set r \<Longrightarrow> fst ` set (classifyRow r) = fst ` set r"
proof -
  assume p: "''__proto__'' \<notin> fst ` set r"
  have "dom (map_of (classifyRow r)) = dom (map_of r)"
    by (auto simp: map_of_classifyRow [OF p] dom_def)
  then show ?thesis by (simp add: dom_map_of_conv_image_fst)
qed

lemma proto_not_key_fillRow: "''__proto__'' \<notin> fst ` set (fillRow cols parts)"
  by (simp add: keys_fillRow)

text \<open>
  The cell of a parsed row under a column name other than \<open>__proto__\<close>: the classified
  field at the last position of the name, the empty string where the row has no field
  there.
\<close>

lemma parsed_cell:
  assumes "c < length cols" "cols ! c \<noteq> ''__proto__''"
    "\<And>d. c < d \<Longrightarrow> d < length cols \<Longrightarrow> cols ! d \<noteq> cols ! c"
  shows "map_of (classifyRow (fillRow cols parts)) (cols ! c)
       = Some (classifyCell (CStr (fieldAt parts c)))"
  using assms by (simp add: map_of_classifyRow proto_not_key_fillRow map_of_fillRow)

lemma parsed_keys: "fst ` set (classifyRow (fillRow cols parts)) = set cols - {''__proto__''}"
  by (simp add: keys_classifyRow proto_not_key_fillRow keys_fillRow)

lemma last_occurrence:
  assumes "c < length cols"
  obtains c' where "c \<le> c'" "c' < length cols" "cols ! c' = cols ! c"
    "\<And>d. c' < d \<Longrightarrow> d < length cols \<Longrightarrow> cols ! d \<noteq> cols ! c'"
proof -
  let ?S = "{d. d < length cols \<and> cols ! d = cols ! c}"
  have fin: "finite ?S" by simp
  have ne: "c \<in> ?S" using assms by simp
  let ?m = "Max ?S"
  have m: "?m \<in> ?S" using Max_in [OF fin] ne by blast
  have "c \<le> ?m" using Max_ge [OF fin ne] .
  moreover have "?m < length cols" "cols ! ?m = cols ! c" using m by auto
  moreover have "\<And>d. ?m < d \<Longrightarrow> d < length cols \<Longrightarrow> cols ! d \<noteq> cols ! ?m"
  proof
    fix d assume d: "?m < d" "d < length cols" "cols ! d = cols ! ?m"
    then have "d \<in> ?S" using m by simp
    then have "d \<le> ?m" using Max_ge [OF fin] by blast
    then show False using d by simp
  qed
  ultimately show ?thesis using that by blast
qed

lemma parsed_missing:
  assumes "length parts \<le> c" "c < length cols" "cols ! c \<noteq> ''__proto__''"
  shows "map_of (classifyRow (fillRow cols parts)) (cols ! c) = Some (CStr [])"
proof -
  obtain c' where c': "c \<le> c'" "c' < length cols" "cols ! c' = cols ! c"
    "\<And>d. c' < d \<Longrightarrow> d < length cols \<Longrightarrow> cols ! d \<noteq> cols ! c'"
    using last_occurrence [OF assms(2)] by blast
  have "map_of (classifyRow (fillRow cols parts)) (cols ! c')
      = Some (classifyCell (CStr (fieldAt parts c')))"
    using c' assms(3) by (intro parsed_cell) auto
  moreover have "fieldAt parts c' = []" using c'(1) assms(1) by (simp add: fieldAt_def)
  ultimately show ?thesis using c'(3) by (simp add: classifyCell_empty)
qed

lemma parseCsvText_Cons:
  "csvLines csvText = header # body \<Longrightarrow>
   parseCsvText csvText =
     \<lparr>columns = map trim (splitCsvLine header),
      rows = map (\<lambda>line. classifyRow (fillRow (map trim (splitCsvLine header)) (splitCsvLine line)))
               body\<rparr>"
  by (simp add: parseCsvText_def Let_def)

lemma parseCsvText_Nil:
  "csvLines csvText = [] \<Longrightarrow> parseCsvText csvText = \<lparr>columns = [], rows = []\<rparr>"
  by (simp add: parseCsvText_def)

subsection \<open>The numeric rule\<close>






text \<open>
  More fields under the rule: blanks around a number do not count, and a number written
  in another way than \<open>String\<close> writes it stays a string.
\<close>

lemma classifyCell_examples:
  "classifyCell (CStr '' 42 '') = CNum (Finite False (21 * 2 ^ 48) (- 47))"
  "classifyCell (CStr ''1.50'') = CStr ''1.50''"
  "classifyCell (CStr ''-0'') = CStr ''-0''"
  "classifyCell (CStr ''1e3'') = CStr ''1e3''"
  "classifyCell (CStr ''0x1F'') = CStr ''0x1F''"
  "classifyCell (CStr ''Infinity'') = CStr ''Infinity''"
  "classifyCell (CStr ''-2.5'') = CNum (Finite True (5 * 2 ^ 50) (- 51))"
  by (simp_all add: classifyCell_def js_eval cong: js_cong)

subsection \<open>Tables of example texts\<close>

lemmas csv_eval = csvLines_def replaceCR_def splitCsvLine_def fillRow_def classifyRow_def
  setProp_def fieldAt_def upt_rec [of _ "numeral n" for n] upt_rec [of _ "Suc 0"]

lemma classifyCell_NaN: "Number raw = NaN \<Longrightarrow> classifyCell (CStr raw) = CStr raw"
  by (simp add: classifyCell_def isFinite_def)

lemma Number_letter:
  "Number ''a'' = NaN" "Number ''b'' = NaN" "Number ''c'' = NaN" "Number ''d'' = NaN"
  "Number ''x'' = NaN"
  by (simp_all add: js_eval cong: js_cong)

lemmas classify_letter = Number_letter [THEN classifyCell_NaN]

lemma csvLines_ab_x: "csvLines ''a,b\<newline>x'' = [''a,b'', ''x'']"
  by (simp add: csv_eval js_eval cong: js_cong)

lemma parseCsvText_ab_x:
  "parseCsvText ''a,b\<newline>x'' =
     \<lparr>columns = [''a'', ''b''], rows = [[(''a'', CStr ''x''), (''b'', CStr [])]]\<rparr>"
  by (simp add: parseCsvText_def csvLines_ab_x csv_eval classify_letter classifyCell_empty
      trim_def isWhiteSpace_def)

lemma csvLines_blank: "csvLines [CHR '' '', CHR 0x0D, CHR 0x0A, CHR 0x09, CHR 0x0D] = []"
  by (simp add: csv_eval js_eval cong: js_cong)

lemma csvLines_proto:
  "csvLines ''__proto__,__proto__\<newline>1,2'' = [''__proto__,__proto__'', ''1,2'']"
  by (simp add: csv_eval js_eval cong: js_cong)

subsection \<open>Short rows\<close>

text \<open>
  C4, as the code has it. In every data row with fewer fields than the table has
  columns, a column beyond the last field of the row is a key of the row and holds the
  empty string (the loop stores \<open>parts[c] ?? ""\<close>). The statement leaves out a column
  named \<open>__proto__\<close>.
\<close>

theorem short_row_empty_string:
  assumes "csvLines csvText = header # body" and "i < length body"
    and "length (splitCsvLine (body ! i)) \<le> c"
    and "c < length (columns (parseCsvText csvText))"
    and "columns (parseCsvText csvText) ! c \<noteq> ''__proto__''"
  shows "map_of (rows (parseCsvText csvText) ! i) (columns (parseCsvText csvText) ! c)
       = Some (CStr [])"
proof -
  let ?cols = "map trim (splitCsvLine header)"
  have cols: "columns (parseCsvText csvText) = ?cols"
    using assms(1) by (simp add: parseCsvText_Cons)
  have row: "rows (parseCsvText csvText) ! i = classifyRow (fillRow ?cols (splitCsvLine (body ! i)))"
    using assms(1,2) by (simp add: parseCsvText_Cons)
  have "map_of (classifyRow (fillRow ?cols (splitCsvLine (body ! i)))) (?cols ! c) = Some (CStr [])"
    using assms(3,4,5) unfolding cols by (rule parsed_missing)
  then show ?thesis unfolding cols row .
qed

theorem short_row_empty_string_witness:
  "csvLines ''a,b\<newline>x'' = [''a,b'', ''x'']
   \<and> length (splitCsvLine ''x'') \<le> 1
   \<and> columns (parseCsvText ''a,b\<newline>x'') = [''a'', ''b'']
   \<and> map_of (rows (parseCsvText ''a,b\<newline>x'') ! 0) ''b'' = Some (CStr [])"
  using short_row_empty_string [of "''a,b\<newline>x''" "''a,b''" "[''x'']" 0 1]
  by (simp add: csvLines_ab_x parseCsvText_ab_x splitCsvLine_def)

text \<open>
  The claim C4 as it is written fails: the row \<open>x\<close> under the header \<open>a,b\<close> has one field,
  and the column \<open>b\<close> is a key of the parsed row, with the empty string.
\<close>

theorem short_row_counterexample:
  "length (splitCsvLine ''x'') < length (columns (parseCsvText ''a,b\<newline>x''))
   \<and> rows (parseCsvText ''a,b\<newline>x'') = [[(''a'', CStr ''x''), (''b'', CStr [])]]
   \<and> ''b'' \<in> fst ` set (hd (rows (parseCsvText ''a,b\<newline>x'')))"
  by (simp add: parseCsvText_ab_x splitCsvLine_def)

subsection \<open>Row count\<close>

text \<open>
  The two replacements and the split of the parser give the lines of the text.
\<close>

lemma splitOn_textLines:
  "splitOn (CHR 0x0A) (replaceCR (replaceCRLF s)) = textLines s"
proof (induction s rule: replaceCRLF.induct)
  case 1
  then show ?case by (simp add: replaceCR_def)
next
  case (2 c)
  then show ?case by (simp add: replaceCR_def)
next
  case (3 c d r)
  show ?case
  proof (cases "c = CHR 0x0D \<and> d = CHR 0x0A")
    case True
    then show ?thesis using 3(1) by (simp add: replaceCR_def)
  next
    case False
    have "splitOn (CHR 0x0A) (replaceCR (replaceCRLF (d # r))) = textLines (d # r)"
      using 3(2) [OF False] .
    moreover have "replaceCR (replaceCRLF (c # d # r))
        = (if c = CHR 0x0D then CHR 0x0A else c) # replaceCR (replaceCRLF (d # r))"
      using False by (simp add: replaceCR_def)
    moreover have "textLines (c # d # r) =
        (if c = CHR 0x0D \<or> c = CHR 0x0A then [] # textLines (d # r)
         else (case textLines (d # r) of l # ls \<Rightarrow> (c # l) # ls | [] \<Rightarrow> [[c]]))"
      using False by (cases "c = CHR 0x0D") simp_all
    ultimately show ?thesis by (simp del: replaceCRLF.simps textLines.simps)
  qed
qed

lemma csvLines_textLines: "csvLines csvText = filter (\<lambda>l. trim l \<noteq> []) (textLines csvText)"
  by (simp add: csvLines_def splitOn_textLines)

text \<open>
  C5. The number of rows of the parsed table is the number of lines of the text that
  keep a character after trimming, minus one for the header line; these lines are the
  lines the parser works on. A text without such a line gives the table without columns
  and rows.
\<close>

theorem row_count:
  "length (rows (parseCsvText csvText)) = length (filter (\<lambda>l. trim l \<noteq> []) (textLines csvText)) - 1
   \<and> csvLines csvText = filter (\<lambda>l. trim l \<noteq> []) (textLines csvText)
   \<and> (csvLines csvText = [] \<longrightarrow> parseCsvText csvText = \<lparr>columns = [], rows = []\<rparr>)
   \<and> (csvLines csvText \<noteq> [] \<longrightarrow>
        Suc (length (rows (parseCsvText csvText))) = length (csvLines csvText))"
proof -
  have "length (rows (parseCsvText csvText)) = length (csvLines csvText) - 1"
    by (cases "csvLines csvText") (simp_all add: parseCsvText_Cons parseCsvText_Nil)
  moreover have "csvLines csvText = [] \<longrightarrow> parseCsvText csvText = \<lparr>columns = [], rows = []\<rparr>"
    by (simp add: parseCsvText_Nil)
  moreover have "csvLines csvText \<noteq> [] \<longrightarrow>
        Suc (length (rows (parseCsvText csvText))) = length (csvLines csvText)"
    by (cases "csvLines csvText") (simp_all add: parseCsvText_Cons)
  ultimately show ?thesis using csvLines_textLines [of csvText] by simp
qed

theorem row_count_witness:
  "csvLines [CHR '' '', CHR 0x0D, CHR 0x0A, CHR 0x09, CHR 0x0D] = []
   \<and> parseCsvText [CHR '' '', CHR 0x0D, CHR 0x0A, CHR 0x09, CHR 0x0D] = \<lparr>columns = [], rows = []\<rparr>
   \<and> csvLines ''a,b\<newline>x'' \<noteq> []
   \<and> Suc (length (rows (parseCsvText ''a,b\<newline>x''))) = length (csvLines ''a,b\<newline>x'')"
  using row_count [of "[CHR '' '', CHR 0x0D, CHR 0x0A, CHR 0x09, CHR 0x0D]"]
    row_count [of "''a,b\<newline>x''"]
  by (simp add: csvLines_blank csvLines_ab_x trim_def isWhiteSpace_def)

subsection \<open>Repeated column names\<close>

text \<open>
  The column list keeps every name of the header line in order, repeated names too. A
  row has one key for each name other than \<open>__proto__\<close>, and the key holds the cell of the
  last position of the name.
\<close>

lemma repeated_column_last_wins:
  assumes "csvLines csvText = header # body" and "i < length body"
    and "c < length (columns (parseCsvText csvText))"
    and "columns (parseCsvText csvText) ! c \<noteq> ''__proto__''"
    and "\<And>d. c < d \<Longrightarrow> d < length (columns (parseCsvText csvText)) \<Longrightarrow>
           columns (parseCsvText csvText) ! d \<noteq> columns (parseCsvText csvText) ! c"
  shows "columns (parseCsvText csvText) = map trim (splitCsvLine header)"
    and "map_of (rows (parseCsvText csvText) ! i) (columns (parseCsvText csvText) ! c)
       = Some (classifyCell (CStr (fieldAt (splitCsvLine (body ! i)) c)))"
    and "fst ` set (rows (parseCsvText csvText) ! i)
       = set (columns (parseCsvText csvText)) - {''__proto__''}"
proof -
  let ?cols = "map trim (splitCsvLine header)"
  show cols: "columns (parseCsvText csvText) = ?cols"
    using assms(1) by (simp add: parseCsvText_Cons)
  have row: "rows (parseCsvText csvText) ! i = classifyRow (fillRow ?cols (splitCsvLine (body ! i)))"
    using assms(1,2) by (simp add: parseCsvText_Cons)
  have "map_of (classifyRow (fillRow ?cols (splitCsvLine (body ! i)))) (?cols ! c)
      = Some (classifyCell (CStr (fieldAt (splitCsvLine (body ! i)) c)))"
    using assms(3,4,5) unfolding cols by (rule parsed_cell)
  then show "map_of (rows (parseCsvText csvText) ! i) (columns (parseCsvText csvText) ! c)
       = Some (classifyCell (CStr (fieldAt (splitCsvLine (body ! i)) c)))"
    unfolding cols row .
  show "fst ` set (rows (parseCsvText csvText) ! i) = set (columns (parseCsvText csvText)) - {''__proto__''}"
    unfolding cols row by (rule parsed_keys)
qed

text \<open>
  C10 on the header \<open>__proto__,__proto__\<close>: the column list keeps both names, and the row
  \<open>1,2\<close> is parsed to a row without any key. The repeated name has no key that would hold
  the field \<open>2\<close> of its last position.
\<close>

theorem repeated_proto_column_has_no_key:
  "parseCsvText ''__proto__,__proto__\<newline>1,2''
     = \<lparr>columns = [''__proto__'', ''__proto__''], rows = [[]]\<rparr>"
  by (simp add: parseCsvText_def csvLines_proto csv_eval trim_def isWhiteSpace_def)

section \<open>The header parser of the column inspection\<close>

lemma trim_subset: "set (trim s) \<subseteq> set s"
proof -
  have "set (trim s) \<subseteq> set (dropWhile isWhiteSpace s)"
    unfolding trim_def using set_dropWhileD [of _ isWhiteSpace "rev (dropWhile isWhiteSpace s)"]
    by auto
  also have "\<dots> \<subseteq> set s" using set_dropWhileD by fastforce
  finally show ?thesis .
qed

lemma stripQuotes_id: "CHR 0x22 \<notin> set s \<Longrightarrow> stripQuotes s = s"
  by (cases s) (auto simp: stripQuotes_def)

text \<open>The loop never appends a double quote, so the field it pushes has none to strip.\<close>

lemma stripQuotes_trim_noQuotes: "stripQuotes (trim (noQuotes s)) = trim (noQuotes s)"
proof (rule stripQuotes_id)
  show "CHR 0x22 \<notin> set (trim (noQuotes s))"
    using trim_subset [of "noQuotes s"] by (auto simp: noQuotes_def)
qed

text \<open>
  The two loops run in step: they agree on the quote flag, and the header parser holds
  the fields of the splitter without their double quotes.
\<close>

lemma headerLoop_splitLoop:
  "headerLoop inQ (noQuotes cur) (map (\<lambda>f. trim (noQuotes f)) out) rest
     = headerFinish (splitLoop inQ cur out rest)"
proof (induction inQ cur out rest rule: splitLoop.induct)
  case (1 inQ cur out)
  then show ?case by (simp add: headerFinish_def stripQuotes_trim_noQuotes)
next
  case (2 inQ cur out ch rest)
  let ?res = "map (\<lambda>f. trim (noQuotes f)) out"
  show ?case
  proof (cases "ch = CHR 0x22")
    case True
    show ?thesis
    proof (cases "inQ \<and> (case rest of [] \<Rightarrow> False | nxt # _ \<Rightarrow> nxt = CHR 0x22)")
      case esc: True
      then obtain rest' where rest: "rest = CHR 0x22 # rest'" and inQ: "inQ"
        by (cases rest) auto
      have s: "splitLoop inQ cur out (ch # rest) = splitLoop inQ (cur @ [CHR 0x22]) out rest'"
        using True rest inQ by (simp add: splitLoop_Cons del: splitLoop.simps)
      have h: "headerLoop inQ (noQuotes cur) ?res (ch # rest)
             = headerLoop inQ (noQuotes (cur @ [CHR 0x22])) ?res rest'"
        using True rest by (simp add: noQuotes_def)
      have "inQ \<and> CHR 0x22 = CHR 0x22" using inQ by simp
      from 2(2) [OF True rest this] show ?thesis unfolding s h .
    next
      case tog: False
      have s: "splitLoop inQ cur out (ch # rest) = splitLoop (\<not> inQ) cur out rest"
        using True tog by (auto simp add: splitLoop_Cons simp del: splitLoop.simps)
      have h: "headerLoop inQ (noQuotes cur) ?res (ch # rest)
             = headerLoop (\<not> inQ) (noQuotes cur) ?res rest"
        using True by simp
      have ih: "headerLoop (\<not> inQ) (noQuotes cur) ?res rest
              = headerFinish (splitLoop (\<not> inQ) cur out rest)"
      proof (cases rest)
        case Nil
        from 2(1) [OF True Nil] show ?thesis .
      next
        case (Cons nxt rest')
        have "\<not> (inQ \<and> nxt = CHR 0x22)" using tog Cons by simp
        from 2(3) [OF True Cons this] show ?thesis .
      qed
      show ?thesis unfolding s h by (rule ih)
    qed
  next
    case nq: False
    show ?thesis
    proof (cases "ch = CHR '','' \<and> \<not> inQ")
      case True
      have s: "splitLoop inQ cur out (ch # rest) = splitLoop inQ [] (out @ [cur]) rest"
        using nq True by (simp add: splitLoop_Cons del: splitLoop.simps)
      have h: "headerLoop inQ (noQuotes cur) ?res (ch # rest)
             = headerLoop inQ (noQuotes []) (map (\<lambda>f. trim (noQuotes f)) (out @ [cur])) rest"
        using nq True by (simp add: noQuotes_def [of "[]"] stripQuotes_trim_noQuotes)
      from 2(4) [OF nq True] show ?thesis unfolding s h .
    next
      case False
      have s: "splitLoop inQ cur out (ch # rest) = splitLoop inQ (cur @ [ch]) out rest"
        using nq False by (auto simp add: splitLoop_Cons simp del: splitLoop.simps)
      have h: "headerLoop inQ (noQuotes cur) ?res (ch # rest)
             = headerLoop inQ (noQuotes (cur @ [ch])) ?res rest"
        using nq False by (auto simp add: noQuotes_def)
      from 2(5) [OF nq False] show ?thesis unfolding s h .
    qed
  qed
qed

lemma parseCsvHeader_splitCsvLine: "parseCsvHeader line = headerOf (splitCsvLine line)"
proof -
  have "parseCsvHeader line = headerLoop False (noQuotes []) (map (\<lambda>f. trim (noQuotes f)) []) line"
    by (simp add: parseCsvHeader_def noQuotes_def)
  also have "\<dots> = headerFinish (splitCsvLine line)"
    unfolding splitCsvLine_def by (rule headerLoop_splitLoop)
  also have "\<dots> = headerOf (splitCsvLine line)"
  proof -
    have ne: "splitCsvLine line \<noteq> []" by (simp add: splitCsvLine_def splitLoop_nonempty)
    then obtain fs f where fs: "splitCsvLine line = fs @ [f]"
      by (metis append_butlast_last_id)
    show ?thesis by (simp add: fs headerOf_def headerFinish_def)
  qed
  finally show ?thesis .
qed

text \<open>The copy in \<open>router.js\<close> computes the same list as the copy in \<open>server.js\<close>.\<close>

lemma headerLoop_router_eq:
  "map stripQuotes (headerLoop_router q cur out rest) = headerLoop q cur (map stripQuotes out) rest"
  by (induction q cur out rest rule: headerLoop_router.induct) auto

lemma parseCsvHeader_router_eq: "parseCsvHeader_router line = parseCsvHeader line"
  by (simp add: parseCsvHeader_router_def parseCsvHeader_def headerLoop_router_eq)

text \<open>
  C7, as the code has it. The column inspection has a parser of its own,
  \<open>parseCsvHeader\<close>, in both copies of the server. For every line its field list is the
  field list of \<open>splitCsvLine\<close> changed in three ways: every double quote is removed from
  every field (a doubled quote inside quotes gives no character), a last field that is
  empty then is dropped, and every field is trimmed.
\<close>

theorem parseCsvHeader_from_splitCsvLine:
  "parseCsvHeader line = headerOf (splitCsvLine line)
   \<and> parseCsvHeader_router line = headerOf (splitCsvLine line)"
  by (simp add: parseCsvHeader_router_eq parseCsvHeader_splitCsvLine)

text \<open>
  The claim C7 as it is written fails: on the line \<open>a,\<close> the header parser gives one
  field and \<open>splitCsvLine\<close> two, and on \<open>"x""y"\<close> the escaped quote is lost.
\<close>

theorem parseCsvHeader_counterexample:
  \<open>parseCsvHeader ''a,'' = [''a''] \<and> parseCsvHeader_router ''a,'' = [''a'']
   \<and> splitCsvLine ''a,'' = [''a'', '''']
   \<and> parseCsvHeader ''"x""y"'' = [''xy''] \<and> parseCsvHeader_router ''"x""y"'' = [''xy'']
   \<and> splitCsvLine ''"x""y"'' = [''x"y'']
   \<and> parseCsvHeader ''a,'' \<noteq> splitCsvLine ''a,''
   \<and> parseCsvHeader_router ''a,'' \<noteq> splitCsvLine ''a,''\<close>
  by (simp add: parseCsvHeader_def parseCsvHeader_router_def splitCsvLine_def stripQuotes_def
      trim_def isWhiteSpace_def)

section \<open>ReportAggregator\<close>

subsection \<open>The union of the columns\<close>

















lemma load_nomatch:
  "loadCombinedCsvs exampleTree [''base''] (Some ''zzz'') = Inl NoSubdirsMatched"
  by (simp add: loadCombinedCsvs_def assertDirectory_def listImmediateSubdirs_def readdir_def
      isDirectory_def keywordOf_def matchFolders_def startsWith_def exampleTree_def exampleBase_def
      trim_def isWhiteSpace_def)



subsection \<open>FolderMatcher\<close>

lemma walk_error:
  "walkCsvFiles p n out = Inl e \<Longrightarrow> e = ReaddirFailed"
  "walkEntries p es out = Inl e \<Longrightarrow> e = ReaddirFailed"
  by (induction p n out and p es out rule: walkCsvFiles_walkEntries.induct)
     (auto simp: Let_def split: sum.splits if_splits)

lemma walkFolders_error: "walkFolders fs base ds acc = Inl e \<Longrightarrow> e = ReaddirFailed"
  by (induction ds arbitrary: acc)
     (auto simp: Let_def split: option.splits sum.splits dest: walk_error)

lemma mergeFiles_error: "mergeFiles fs ps acc = Inl e \<Longrightarrow> e = ReadFileFailed"
  by (induction ps arbitrary: acc)
     (auto simp: readFile_def split: sum.splits option.splits fsnode.splits)

lemma loadCombinedCsvs_folders:
  assumes "lookup base fs = Some (Dir entries)"
  shows "listImmediateSubdirs fs base = Inr (map fst (filter (\<lambda>e. isDirectory (snd e)) entries))"
    and "matchFolders (keywordOf (Some kw)) (map fst (filter (\<lambda>e. isDirectory (snd e)) entries))
       = selectedFolders entries kw"
    and "(loadCombinedCsvs fs base (Some kw) = Inl NoSubdirsMatched) = (selectedFolders entries kw = [])"
    and "loadCombinedCsvs fs base (Some kw) = Inr rep \<Longrightarrow>
         matchedFolders (meta rep) = selectedFolders entries kw"
proof -
  let ?subdirs = "map fst (filter (\<lambda>e. isDirectory (snd e)) entries)"
  show l: "listImmediateSubdirs fs base = Inr ?subdirs"
    using assms by (simp add: listImmediateSubdirs_def readdir_def)
  show m: "matchFolders (keywordOf (Some kw)) ?subdirs = selectedFolders entries kw"
    by (auto simp: matchFolders_def keywordOf_def selectedFolders_def startsWith_def filter_map
        comp_def intro: filter_cong)
  have a: "assertDirectory fs base = Inr ()"
    using assms by (simp add: assertDirectory_def isDirectory_def)
  show "(loadCombinedCsvs fs base (Some kw) = Inl NoSubdirsMatched) = (selectedFolders entries kw = [])"
    by (auto simp: loadCombinedCsvs_def a l m Let_def split: sum.splits
        dest: walkFolders_error mergeFiles_error)
  show "matchedFolders (meta rep) = selectedFolders entries kw"
    if "loadCombinedCsvs fs base (Some kw) = Inr rep"
    using that by (auto simp: loadCombinedCsvs_def a l m Let_def split: sum.splits if_splits)
qed

text \<open>
  C6. Where the base path is a directory with the listing \<open>entries\<close>, the folders that
  \<open>loadCombinedCsvs\<close> matches are the entries of the listing that are directories (no
  file, and nothing but entries of the base directory) and whose name starts with the
  trimmed keyword, in listing order; they are all the directories of the listing when
  the trimmed keyword is empty or the keyword is not a string. The operation fails with the error of no matched
  subdirectory exactly when this selection is empty, and a report names the selection
  as its matched folders.
\<close>

theorem folder_selection:
  assumes "lookup base fs = Some (Dir entries)"
  shows "listImmediateSubdirs fs base = Inr (map fst (filter (\<lambda>e. isDirectory (snd e)) entries))
    \<and> matchFolders (keywordOf (Some kw)) (map fst (filter (\<lambda>e. isDirectory (snd e)) entries))
        = selectedFolders entries kw
    \<and> set (selectedFolders entries kw) \<subseteq> fst ` {e \<in> set entries. isDirectory (snd e)}
    \<and> (trim kw = [] \<longrightarrow>
         selectedFolders entries kw = map fst (filter (\<lambda>e. isDirectory (snd e)) entries))
    \<and> matchFolders (keywordOf None) (map fst (filter (\<lambda>e. isDirectory (snd e)) entries))
        = map fst (filter (\<lambda>e. isDirectory (snd e)) entries)
    \<and> ((loadCombinedCsvs fs base (Some kw) = Inl NoSubdirsMatched) = (selectedFolders entries kw = []))
    \<and> (\<forall>rep. loadCombinedCsvs fs base (Some kw) = Inr rep \<longrightarrow>
          matchedFolders (meta rep) = selectedFolders entries kw)"
proof -
  have sub: "set (selectedFolders entries kw) \<subseteq> fst ` {e \<in> set entries. isDirectory (snd e)}"
    by (auto simp: selectedFolders_def)
  have all: "trim kw = [] \<longrightarrow>
      selectedFolders entries kw = map fst (filter (\<lambda>e. isDirectory (snd e)) entries)"
    by (simp add: selectedFolders_def)
  have none: "matchFolders (keywordOf None) (map fst (filter (\<lambda>e. isDirectory (snd e)) entries))
        = map fst (filter (\<lambda>e. isDirectory (snd e)) entries)"
    by (simp add: matchFolders_def keywordOf_def)
  show ?thesis
    using loadCombinedCsvs_folders [OF assms] sub all none by blast
qed

theorem folder_selection_witness:
  "lookup [''base''] exampleTree = Some (Dir exampleBase)
   \<and> selectedFolders exampleBase '' proj '' = [''project1'', ''project2'']
   \<and> loadCombinedCsvs exampleTree [''base''] (Some '' proj '') \<noteq> Inl NoSubdirsMatched
   \<and> selectedFolders exampleBase ''zzz'' = []
   \<and> loadCombinedCsvs exampleTree [''base''] (Some ''zzz'') = Inl NoSubdirsMatched
   \<and> selectedFolders exampleBase '' '' = [''project1'', ''other'', ''project2'']"
proof -
  have l: "lookup [''base''] exampleTree = Some (Dir exampleBase)"
    by (simp add: exampleTree_def)
  have s: "selectedFolders exampleBase '' proj '' = [''project1'', ''project2'']"
    "selectedFolders exampleBase ''zzz'' = []"
    "selectedFolders exampleBase '' '' = [''project1'', ''other'', ''project2'']"
    by (simp_all add: selectedFolders_def exampleBase_def isDirectory_def trim_def isWhiteSpace_def)
  show ?thesis
    using folder_selection [OF l, of "'' proj ''"] folder_selection [OF l, of "''zzz''"]
      folder_selection [OF l, of "'' ''"] l s
    by simp
qed

section \<open>The column inspection and the data directory\<close>

lemmas path_eval = DATA_DIR_def pathJoin_def normalize_def insideDir_def startsWith_def

lemma DATA_DIR_example: "DATA_DIR ''/srv/app'' = ''/srv/app/data''"
  by (simp add: path_eval)

lemma pathJoin_secret: "pathJoin ''/srv/app/data'' ''../secret.csv'' = ''/srv/app/secret.csv''"
  by (simp add: path_eval)

lemma pathJoin_data2: "pathJoin ''/srv/app/data'' ''../data2/x.csv'' = ''/srv/app/data2/x.csv''"
  by (simp add: path_eval)

lemma normalize_example:
  "normalize ''/srv/app/secret.csv'' = ''/srv/app/secret.csv''"
  "normalize ''/srv/app/data2/x.csv'' = ''/srv/app/data2/x.csv''"
  by (simp_all add: path_eval)

text \<open>
  \<open>handleApiColumns\<close> of \<open>server.js\<close> reads no path that does not start with the characters
  of the data directory's path, and answers 400 for a flow whose path does not.
\<close>

lemma handleApiColumns_reads:
  "p \<in> set (snd (handleApiColumns root fs method flow)) \<Longrightarrow> startsWith p (DATA_DIR root)"
  by (auto simp: handleApiColumns_def Let_def
      split: option.splits if_splits readResult.splits list.splits)

lemma handleApiColumns_rejects:
  "fl \<noteq> [] \<Longrightarrow>
   \<not> startsWith (normalize (pathJoin (DATA_DIR root) (fl @ ''.csv''))) (DATA_DIR root) \<Longrightarrow>
   handleApiColumns root fs ''GET'' (Some fl) = ((400, errorBody ''Invalid flow name''), [])"
  by (simp add: handleApiColumns_def Let_def)

text \<open>
  C8 on flow names that leave the data directory \<open>/srv/app/data\<close>. For the flow
  \<open>../secret\<close> the path is \<open>/srv/app/secret.csv\<close>: \<open>handleColumns\<close> of \<open>router.js\<close> has no
  check, reads the file and answers 200 with its header, where \<open>handleApiColumns\<close> of
  \<open>server.js\<close> answers 400 without reading. For the flow \<open>../data2/x\<close> the path is
  \<open>/srv/app/data2/x.csv\<close>, outside the data directory too; it starts with the characters
  \<open>/srv/app/data\<close>, so the check of \<open>handleApiColumns\<close> lets it pass and the file is read.
\<close>

theorem columns_read_outside_data_dir:
  "DATA_DIR ''/srv/app'' = ''/srv/app/data''
   \<and> pathJoin (DATA_DIR ''/srv/app'') (''../secret'' @ ''.csv'') = ''/srv/app/secret.csv''
   \<and> \<not> insideDir (DATA_DIR ''/srv/app'') ''/srv/app/secret.csv''
   \<and> handleColumns ''/srv/app'' exampleFiles ''GET'' (Some ''../secret'')
       = ((200, JArray [JString ''k'', JString ''v'']), [''/srv/app/secret.csv''])
   \<and> handleApiColumns ''/srv/app'' exampleFiles ''GET'' (Some ''../secret'')
       = ((400, errorBody ''Invalid flow name''), [])
   \<and> pathJoin (DATA_DIR ''/srv/app'') (''../data2/x'' @ ''.csv'') = ''/srv/app/data2/x.csv''
   \<and> \<not> insideDir (DATA_DIR ''/srv/app'') ''/srv/app/data2/x.csv''
   \<and> handleApiColumns ''/srv/app'' exampleFiles ''GET'' (Some ''../data2/x'')
       = ((200, JArray [JString ''p'', JString ''q'']), [''/srv/app/data2/x.csv''])"
proof -
  have i: "\<not> insideDir ''/srv/app/data'' ''/srv/app/secret.csv''"
    "\<not> insideDir ''/srv/app/data'' ''/srv/app/data2/x.csv''"
    by (simp_all add: insideDir_def startsWith_def)
  have lines: "splitLines ''k,v\<newline>1,2'' = [''k,v'', ''1,2'']" "splitLines ''p,q'' = [''p,q'']"
    by (simp_all add: splitLines_def dropLastCR_def)
  have t: "trim ''k,v'' = ''k,v''" "trim ''1,2'' = ''1,2''" "trim ''p,q'' = ''p,q''"
    by (simp_all add: trim_def isWhiteSpace_def)
  have h: "parseCsvHeader_router ''k,v'' = [''k'', ''v'']" "parseCsvHeader ''p,q'' = [''p'', ''q'']"
    by (simp_all add: parseCsvHeader_router_def parseCsvHeader_def stripQuotes_def trim_def
        isWhiteSpace_def)
  have r: "handleColumns ''/srv/app'' exampleFiles ''GET'' (Some ''../secret'')
       = ((200, JArray [JString ''k'', JString ''v'']), [''/srv/app/secret.csv''])"
    by (simp add: handleColumns_def DATA_DIR_example pathJoin_secret exampleFiles_def lines t h)
  have s1: "handleApiColumns ''/srv/app'' exampleFiles ''GET'' (Some ''../secret'')
       = ((400, errorBody ''Invalid flow name''), [])"
    by (simp add: handleApiColumns_def DATA_DIR_example pathJoin_secret normalize_example
        startsWith_def)
  have s2: "handleApiColumns ''/srv/app'' exampleFiles ''GET'' (Some ''../data2/x'')
       = ((200, JArray [JString ''p'', JString ''q'']), [''/srv/app/data2/x.csv''])"
    by (simp add: handleApiColumns_def DATA_DIR_example pathJoin_data2 normalize_example
        startsWith_def exampleFiles_def lines t h)
  show ?thesis
    using i r s1 s2 by (simp add: DATA_DIR_example pathJoin_secret pathJoin_data2)
qed

section \<open>The task store\<close>

text \<open>
  C9, as the code has it. A payload that is not empty and that \<open>JSON.parse\<close> does not read
  as an array (it throws, or it gives another value) is answered with status 400; the
  task file keeps its content and nothing is given to \<open>writeFile\<close>. This holds for
  \<open>handleTasks\<close> of \<open>router.js\<close>, and for \<open>handleApiTasks\<close> of \<open>server.js\<close> on a payload of at
  most 5 MiB; a longer one destroys the connection and gets no response there, and
  nothing is written either.
\<close>

theorem non_array_payload_rejected:
  assumes "body \<noteq> []" and "\<forall>xs. JSON_parse h body \<noteq> Some (JArray xs)"
  shows "(\<exists>msg. handleTasks_PUT h store body
            = \<lparr>reply = Some (400, errorBody msg), stored = store, written = []\<rparr>)
    \<and> (length body \<le> 5 * 1024 * 1024 \<longrightarrow>
         (\<exists>msg. handleApiTasks_PUT h store body
            = \<lparr>reply = Some (400, errorBody msg), stored = store, written = []\<rparr>))
    \<and> stored (handleApiTasks_PUT h store body) = store
    \<and> written (handleApiTasks_PUT h store body) = []"
proof -
  have b: "bodyOrEmptyArray body = body" using assms(1) by (simp add: bodyOrEmptyArray_def)
  have na: "\<not> isArray v" if "JSON_parse h body = Some v" for v
    using that assms(2) by (cases v) (auto simp: isArray_def)
  show ?thesis
    by (cases "JSON_parse h body")
       (auto simp: handleTasks_PUT_def handleApiTasks_PUT_def handleApiTasks_end_def b na)
qed

theorem non_array_payload_rejected_witness:
  "''{}'' \<noteq> [] \<and> JSON_parse exampleHost ''{}'' = Some (JObject [])
   \<and> handleTasks_PUT exampleHost (Some ''[1]'') ''{}''
       = \<lparr>reply = Some (400, errorBody ''must be array''), stored = Some ''[1]'', written = []\<rparr>
   \<and> handleApiTasks_PUT exampleHost (Some ''[1]'') ''{}''
       = \<lparr>reply = Some (400, errorBody ''Body must be an array''), stored = Some ''[1]'',
          written = []\<rparr>"
  using non_array_payload_rejected [of "''{}''" exampleHost "Some ''[1]''"]
  by (simp add: handleTasks_PUT_def handleApiTasks_PUT_def handleApiTasks_end_def
      bodyOrEmptyArray_def exampleHost_def isArray_def)

text \<open>
  The claim C9 as it is written fails on the empty payload: it is not a JSON array
  (\<open>JSON.parse\<close> rejects the empty text), yet the handlers read it as \<open>[]\<close>, answer 200 and
  overwrite the task file. In \<open>server.js\<close> a payload of more than 5 MiB that is not a JSON
  array gets no response, where the claim has the error response.
\<close>

theorem empty_payload_counterexample:
  "JSON_parse exampleHost [] = None
   \<and> handleTasks_PUT exampleHost (Some ''[1]'') []
       = \<lparr>reply = Some (200, JObject [(''ok'', JBool True)]), stored = Some ''[]'',
          written = [''[]'']\<rparr>
   \<and> handleApiTasks_PUT exampleHost (Some ''[1]'') []
       = \<lparr>reply = Some (200, JObject [(''ok'', JBool True)]), stored = Some ''[]'',
          written = [''[]'']\<rparr>
   \<and> JSON_parse exampleHost (replicate (5 * 1024 * 1024 + 1) (CHR ''x'')) = None
   \<and> handleApiTasks_PUT exampleHost (Some ''[1]'') (replicate (5 * 1024 * 1024 + 1) (CHR ''x''))
       = \<lparr>reply = None, stored = Some ''[1]'', written = []\<rparr>"
proof -
  have ne: "replicate (5 * 1024 * 1024 + 1) (CHR ''x'') \<noteq> ''[]''"
    "replicate (5 * 1024 * 1024 + 1) (CHR ''x'') \<noteq> ''{}''"
    by (auto dest: arg_cong [where f = length])
  have big: "handleApiTasks_PUT exampleHost (Some ''[1]'') (replicate (5 * 1024 * 1024 + 1) (CHR ''x''))
       = \<lparr>reply = None, stored = Some ''[1]'', written = []\<rparr>"
    by (simp add: handleApiTasks_PUT_def exampleHost_def)
  have empty: "JSON_parse exampleHost [] = None
   \<and> handleTasks_PUT exampleHost (Some ''[1]'') []
       = \<lparr>reply = Some (200, JObject [(''ok'', JBool True)]), stored = Some ''[]'',
          written = [''[]'']\<rparr>
   \<and> handleApiTasks_PUT exampleHost (Some ''[1]'') []
       = \<lparr>reply = Some (200, JObject [(''ok'', JBool True)]), stored = Some ''[]'',
          written = [''[]'']\<rparr>"
    by (simp add: handleTasks_PUT_def handleApiTasks_PUT_def handleApiTasks_end_def
        bodyOrEmptyArray_def exampleHost_def isArray_def storeTasks_def Let_def)
  have parse: "JSON_parse exampleHost (replicate (5 * 1024 * 1024 + 1) (CHR ''x'')) = None"
    using ne by (simp add: exampleHost_def)
  show ?thesis using empty big parse by blast
qed

end
